theory Spec2Isabelle
  imports Main "HOL-Library.AList"
begin

section \<open>Time values, Date objects and ISO strings\<close>

text \<open>
  The scheduler module of the task automator works on JavaScript \<^verbatim>\<open>Date\<close> objects and
  on the ISO strings they print. A \<^verbatim>\<open>Date\<close> holds a time value, an integral number of milliseconds since the
  epoch of magnitude at most \<open>8.64e15\<close>, or \<^verbatim>\<open>NaN\<close> (an invalid date). Time values are
  modelled as \<open>int\<close>, a \<^verbatim>\<open>Date\<close> as \<open>int option\<close> with \<open>None\<close> for the invalid date.

  Every sum the scheduler builds has the shape \<open>now + amount * c\<close> with non-negative
  integral operands. IEEE double arithmetic is exact on integers up to \<open>2^53\<close> and
  monotone beyond, and \<open>8.64e15 + 8.64e7 < 2^53\<close>, so for a clock reading \<open>now\<close> that is
  itself a valid time value the double result is a valid time value exactly when the
  integer result is, and then both agree. The one difference it builds, \<open>target - now\<close>,
  is exact when it is not negative and the clock is not before the epoch, and goes
  through \<^verbatim>\<open>Math.max(0, _)\<close>, which maps every negative number to 0. The model therefore
  computes on \<open>int\<close> and clips.
\<close>

definition maxTimeMs :: int where
  "maxTimeMs = 8640000000000000"

definition newDate :: "int \<Rightarrow> int option" where
  \<comment> \<open>\<^verbatim>\<open>new Date(v)\<close>: the time value is clipped to the valid range.\<close>
  "newDate v = (if \<bar>v\<bar> \<le> maxTimeMs then Some v else None)"

text \<open>
  \<^verbatim>\<open>toISOString()\<close> prints a valid date as its ISO-8601 string with millisecond precision
  and throws \<^verbatim>\<open>RangeError\<close> on an invalid date; \<^verbatim>\<open>new Date(str)\<close> reads such a string back
  to the same time value. The strings it produces are therefore in one-to-one
  correspondence with the valid time values, and \<open>ISO t\<close> stands for the string of \<open>t\<close>.
\<close>

datatype isoString = ISO int

datatype error = RangeError | Error string

definition toISOString :: "int option \<Rightarrow> error + isoString" where
  "toISOString d = (case d of None \<Rightarrow> Inl RangeError | Some t \<Rightarrow> Inr (ISO t))"

fun getTime :: "isoString \<Rightarrow> int" where
  \<comment> \<open>\<^verbatim>\<open>new Date(nextRun).getTime()\<close>\<close>
  "getTime (ISO t) = t"

section \<open>Schedule strings\<close>

definition isDigit :: "char \<Rightarrow> bool" where
  "isDigit c = (c \<in> set ''0123456789'')"

definition isUnit :: "char \<Rightarrow> bool" where
  "isUnit c = (c \<in> set ''smhd'')"

definition matchInterval :: "string \<Rightarrow> (string \<times> char) option" where
  \<comment> \<open>\<^verbatim>\<open>schedule.match(/^(\d+)([smhd])$/)\<close>: the two capture groups, or \<open>None\<close> for no match.\<close>
  "matchInterval schedule =
     (if schedule = [] then None
      else let ds = butlast schedule; u = last schedule
           in if ds \<noteq> [] \<and> list_all isDigit ds \<and> isUnit u then Some (ds, u) else None)"

definition isIntervalSchedule :: "string \<Rightarrow> bool" where
  \<comment> \<open>\<^verbatim>\<open>/^\d+[smhd]$/.test(schedule)\<close>\<close>
  "isIntervalSchedule schedule = (matchInterval schedule \<noteq> None)"

definition digitVal :: "char \<Rightarrow> int" where
  "digitVal c = of_char c - 48"

definition parseInt :: "string \<Rightarrow> int" where
  \<comment> \<open>\<^verbatim>\<open>Number.parseInt\<close> on a non-empty string of decimal digits.\<close>
  "parseInt ds = foldl (\<lambda>n c. 10 * n + digitVal c) 0 ds"

section \<open>Next run and delay\<close>

text \<open>
  Each function that reads the wall clock (\<^verbatim>\<open>new Date()\<close>, \<^verbatim>\<open>Date.now()\<close>) takes the
  reading as its first argument \<open>now\<close>.
\<close>

definition calculateIntervalNextRun :: "int \<Rightarrow> string \<Rightarrow> error + isoString" where
  "calculateIntervalNextRun now schedule =
     (case matchInterval schedule of
        None \<Rightarrow> Inl (Error (''Invalid interval schedule: '' @ schedule))
      | Some (ds, unit) \<Rightarrow>
          let amount = parseInt ds;
              next =
                (if unit = CHR ''s'' then newDate (now + amount * 1000)
                 else if unit = CHR ''m'' then newDate (now + amount * 60 * 1000)
                 else if unit = CHR ''h'' then newDate (now + amount * 60 * 60 * 1000)
                 else if unit = CHR ''d'' then newDate (now + amount * 24 * 60 * 60 * 1000)
                 else newDate now)
          in toISOString next)"

definition calculateNextRun :: "int \<Rightarrow> string \<Rightarrow> error + isoString" where
  "calculateNextRun now schedule =
     (if isIntervalSchedule schedule then calculateIntervalNextRun now schedule
      else let next = newDate (now + 60000) in toISOString next)"

definition calculateDelay :: "int \<Rightarrow> isoString \<Rightarrow> int" where
  "calculateDelay now nextRun = (let target = getTime nextRun in max 0 (target - now))"

definition unitMs :: "char \<Rightarrow> int" where
  \<comment> \<open>Milliseconds per unit letter, as multiplied out in \<open>calculateIntervalNextRun\<close>.\<close>
  "unitMs u =
     (if u = CHR ''s'' then 1000 else if u = CHR ''m'' then 60000
      else if u = CHR ''h'' then 3600000 else if u = CHR ''d'' then 86400000 else 0)"

definition minuteOfHour :: "int \<Rightarrow> int" where
  \<comment> \<open>The UTC minute field (0 to 59) of a time value.\<close>
  "minuteOfHour t = (t div 60000) mod 60"

definition hourOfDay :: "int \<Rightarrow> int" where
  \<comment> \<open>The UTC hour field (0 to 23) of a time value.\<close>
  "hourOfDay t = (t div 3600000) mod 24"

section \<open>Tasks, schedule entries and the scheduler's state\<close>

text \<open>
  Of a \<^verbatim>\<open>Task\<close> the scheduler reads \<^verbatim>\<open>id\<close>, \<^verbatim>\<open>schedule\<close> and \<^verbatim>\<open>enabled\<close>; the last two are
  optional fields. Field names carry a prefix where two records share them. The
  accessors that only read the state, and \<^verbatim>\<open>configureScheduler\<close>, whose options no other
  function reads, are left out.
\<close>

record Task =
  task_id :: string
  task_name :: string
  task_schedule :: "string option"
  task_enabled :: "bool option"

record ScheduleEntry =
  entry_id :: string
  taskId :: string
  schedule :: string
  nextRun :: isoString
  lastRun :: "isoString option"
  enabled :: bool

text \<open>
  What the scheduler does that can be observed from outside, in program order: writes
  to an entry's run fields, calls of \<^verbatim>\<open>setTimeout\<close> and \<^verbatim>\<open>clearTimeout\<close>, and the line
  \<^verbatim>\<open>console.log(`Executing scheduled task: ${entry.taskId}`)\<close> that stands where the task
  executor is to be called.
\<close>

datatype event =
    LastRunUpdated string isoString
  | NextRunComputed string isoString
  | TimerArmed string int
  | TimerCleared string
  | TaskExecutionTriggered string

text \<open>
  Schedule entries are objects: the map \<^verbatim>\<open>schedules\<close> and the callback of a pending timeout
  may hold the same entry, or different ones after a task has been scheduled twice. So
  entries live in a store \<open>heap\<close> addressed by references, \<open>nextRef\<close> being the next unused
  one. The two module-level \<^verbatim>\<open>Map\<close>s are association lists in insertion order
  (\<^verbatim>\<open>Map.set\<close> is \<open>AList.update\<close>, \<^verbatim>\<open>Map.delete\<close> is \<open>AList.delete\<close>). \<open>timers\<close> is the
  runtime's table of pending timeouts: a handle maps to the entry its callback will
  pass to \<open>executeScheduledTask\<close> and to the delay it was armed with.
\<close>

record scheduler =
  heap :: "nat \<Rightarrow> ScheduleEntry"
  nextRef :: nat
  schedules :: "(string \<times> nat) list"
  activeIntervals :: "(string \<times> nat) list"
  timers :: "nat \<rightharpoonup> nat \<times> int"
  nextHandle :: nat
  events :: "event list"

definition blankEntry :: ScheduleEntry where
  "blankEntry = \<lparr>entry_id = [], taskId = [], schedule = [], nextRun = ISO 0,
                  lastRun = None, enabled = False\<rparr>"

definition initial :: scheduler where
  "initial = \<lparr>heap = (\<lambda>_. blankEntry), nextRef = 0, schedules = [], activeIntervals = [],
              timers = Map.empty, nextHandle = 0, events = []\<rparr>"

section \<open>Operations of the scheduler\<close>

definition startSchedule :: "int \<Rightarrow> nat \<Rightarrow> scheduler \<Rightarrow> scheduler" where
  "startSchedule now r s =
     (let entry = heap s r in
      if map_of (activeIntervals s) (entry_id entry) \<noteq> None then s
      else let delay = calculateDelay now (nextRun entry);
               timeout = nextHandle s
           in s\<lparr>timers := (timers s)(timeout \<mapsto> (r, delay)),
                nextHandle := Suc timeout,
                activeIntervals := AList.update (entry_id entry) timeout (activeIntervals s),
                events := events s @ [TimerArmed (entry_id entry) delay]\<rparr>)"

definition stopSchedule :: "string \<Rightarrow> scheduler \<Rightarrow> scheduler" where
  "stopSchedule scheduleId s =
     (case map_of (activeIntervals s) scheduleId of
        None \<Rightarrow> s
      | Some timeout \<Rightarrow>
          s\<lparr>timers := (timers s)(timeout := None),
            activeIntervals := AList.delete scheduleId (activeIntervals s),
            events := events s @ [TimerCleared scheduleId]\<rparr>)"

text \<open>
  An operation that throws returns the error together with the state at the throw.
\<close>

definition scheduleTask ::
  "int \<Rightarrow> int \<Rightarrow> Task \<Rightarrow> scheduler \<Rightarrow> error \<times> scheduler + scheduler" where
  \<comment> \<open>\<open>now\<close> is the clock read by \<open>calculateNextRun\<close>, \<open>now'\<close> the one read by \<open>calculateDelay\<close>.
      \<^verbatim>\<open>!task.schedule\<close> holds of a missing field and of the empty string.\<close>
  "scheduleTask now now' task s =
     (case task_schedule task of
        None \<Rightarrow> Inl (Error ''Task must have a schedule'', s)
      | Some sched \<Rightarrow>
          if sched = [] then Inl (Error ''Task must have a schedule'', s)
          else
            (case calculateNextRun now sched of
               Inl e \<Rightarrow> Inl (e, s)
             | Inr next \<Rightarrow>
                 let entry = \<lparr>entry_id = ''schedule-'' @ task_id task,
                              taskId = task_id task,
                              schedule = sched,
                              nextRun = next,
                              lastRun = None,
                              enabled = (task_enabled task \<noteq> Some False)\<rparr>;
                     r = nextRef s;
                     s1 = s\<lparr>heap := (heap s)(r := entry), nextRef := Suc r,
                            schedules := AList.update (entry_id entry) r (schedules s)\<rparr>
                 in Inr (if enabled entry then startSchedule now' r s1 else s1)))"

definition unscheduleTask :: "string \<Rightarrow> scheduler \<Rightarrow> bool \<times> scheduler" where
  "unscheduleTask tid s =
     (let scheduleId = ''schedule-'' @ tid in
      case map_of (schedules s) scheduleId of
        None \<Rightarrow> (False, s)
      | Some r \<Rightarrow>
          let s1 = stopSchedule scheduleId s
          in (True, s1\<lparr>schedules := AList.delete scheduleId (schedules s1)\<rparr>))"

definition enableSchedule ::
  "int \<Rightarrow> string \<Rightarrow> scheduler \<Rightarrow> error \<times> scheduler + scheduler" where
  "enableSchedule now tid s =
     (let scheduleId = ''schedule-'' @ tid in
      case map_of (schedules s) scheduleId of
        None \<Rightarrow> Inl (Error (''Schedule not found for task: '' @ tid), s)
      | Some r \<Rightarrow>
          let s1 = s\<lparr>heap := (heap s)(r := (heap s r)\<lparr>enabled := True\<rparr>)\<rparr>
          in Inr (startSchedule now r s1))"

definition disableSchedule :: "string \<Rightarrow> scheduler \<Rightarrow> error \<times> scheduler + scheduler" where
  "disableSchedule tid s =
     (let scheduleId = ''schedule-'' @ tid in
      case map_of (schedules s) scheduleId of
        None \<Rightarrow> Inl (Error (''Schedule not found for task: '' @ tid), s)
      | Some r \<Rightarrow>
          let s1 = s\<lparr>heap := (heap s)(r := (heap s r)\<lparr>enabled := False\<rparr>)\<rparr>
          in Inr (stopSchedule scheduleId s1))"

definition cleanupScheduler :: "scheduler \<Rightarrow> scheduler" where
  "cleanupScheduler s =
     (let s1 = fold stopSchedule (map fst (activeIntervals s)) s in s1\<lparr>schedules := []\<rparr>)"

text \<open>
  \<open>executeScheduledTask\<close> is the callback of every timeout. It reads the clock for
  \<^verbatim>\<open>lastRun\<close> (\<open>t0\<close>), inside \<open>calculateNextRun\<close> (\<open>t1\<close>) and inside \<open>calculateDelay\<close>
  (\<open>t2\<close>). When \<open>calculateNextRun\<close> throws, the write to \<^verbatim>\<open>lastRun\<close> has already happened:
  the error comes with the state at the throw.
\<close>

definition executeScheduledTask ::
  "int \<Rightarrow> int \<Rightarrow> int \<Rightarrow> nat \<Rightarrow> scheduler \<Rightarrow> error \<times> scheduler + scheduler" where
  "executeScheduledTask t0 t1 t2 r s =
     (let s1 = s\<lparr>heap := (heap s)(r := (heap s r)\<lparr>lastRun := Some (ISO t0)\<rparr>),
                 events := events s @ [LastRunUpdated (entry_id (heap s r)) (ISO t0)]\<rparr>
      in case calculateNextRun t1 (schedule (heap s1 r)) of
           Inl e \<Rightarrow> Inl (e, s1)
         | Inr next \<Rightarrow>
             let s2 = s1\<lparr>heap := (heap s1)(r := (heap s1 r)\<lparr>nextRun := next\<rparr>),
                        events := events s1 @ [NextRunComputed (entry_id (heap s1 r)) next]\<rparr>;
                 s3 = (if enabled (heap s2 r) then startSchedule t2 r s2 else s2)
             in Inr (s3\<lparr>events := events s3 @ [TaskExecutionTriggered (taskId (heap s3 r))]\<rparr>))"

definition fireTimer :: "int \<Rightarrow> int \<Rightarrow> int \<Rightarrow> nat \<Rightarrow> scheduler \<Rightarrow> scheduler option" where
  \<comment> \<open>The runtime runs the callback of the pending timeout \<open>h\<close>, which is pending no longer.\<close>
  "fireTimer t0 t1 t2 h s =
     (case timers s h of
        None \<Rightarrow> None
      | Some (r, delay) \<Rightarrow>
          (case executeScheduledTask t0 t1 t2 r (s\<lparr>timers := (timers s)(h := None)\<rparr>) of
             Inl (e, s') \<Rightarrow> Some s'
           | Inr s' \<Rightarrow> Some s'))"

fun fireAll :: "(int \<times> int \<times> int) list \<Rightarrow> nat \<Rightarrow> scheduler \<Rightarrow> error \<times> scheduler + scheduler" where
  \<comment> \<open>Successive runs of the callback on one entry, one per triple of clock readings.\<close>
  "fireAll [] r s = Inr s"
| "fireAll ((t0, t1, t2) # ts) r s =
     (case executeScheduledTask t0 t1 t2 r s of
        Inl err \<Rightarrow> Inl err
      | Inr s' \<Rightarrow> fireAll ts r s')"

text \<open>The states the module can be in: from the initial one by its operations.\<close>

inductive reachable :: "scheduler \<Rightarrow> bool" where
  init: "reachable initial"
| schedule: "reachable s \<Longrightarrow> scheduleTask now now' task s = Inr s' \<Longrightarrow> reachable s'"
| unschedule: "reachable s \<Longrightarrow> unscheduleTask tid s = (b, s') \<Longrightarrow> reachable s'"
| enable: "reachable s \<Longrightarrow> enableSchedule now tid s = Inr s' \<Longrightarrow> reachable s'"
| disable: "reachable s \<Longrightarrow> disableSchedule tid s = Inr s' \<Longrightarrow> reachable s'"
| cleanup: "reachable s \<Longrightarrow> reachable (cleanupScheduler s)"
| fire: "reachable s \<Longrightarrow> fireTimer t0 t1 t2 h s = Some s' \<Longrightarrow> reachable s'"

definition wellFormed :: "scheduler \<Rightarrow> bool" where
  \<comment> \<open>Every pending timeout is the one recorded in \<^verbatim>\<open>activeIntervals\<close> under the id of the
      entry its callback holds; references in use are allocated; keys are not repeated.\<close>
  "wellFormed s =
     ((\<forall>h r d. timers s h = Some (r, d) \<longrightarrow>
         r < nextRef s \<and> map_of (activeIntervals s) (entry_id (heap s r)) = Some h) \<and>
      (\<forall>k r. map_of (schedules s) k = Some r \<longrightarrow> r < nextRef s) \<and>
      distinct (map fst (schedules s)))"

definition zeroInterval :: "string \<Rightarrow> bool" where
  \<comment> \<open>An interval schedule whose amount is zero, such as \<^verbatim>\<open>0s\<close>.\<close>
  "zeroInterval sched =
     (case matchInterval sched of None \<Rightarrow> False | Some (ds, u) \<Rightarrow> parseInt ds = 0)"

definition before :: "'a \<Rightarrow> 'a \<Rightarrow> 'a list \<Rightarrow> bool" where
  \<comment> \<open>\<open>b\<close> occurs in the list after the first occurrence of \<open>a\<close>.\<close>
  "before a b xs = (b \<in> set (drop 1 (dropWhile (\<lambda>x. x \<noteq> a) xs)))"

section \<open>Example tasks and states\<close>

text \<open>
  The task of the module's test suite (\<^verbatim>\<open>schedule: "5m"\<close>), the task of its manual
  (\<^verbatim>\<open>schedule: '0 2 * * *'\<close>, daily at 02:00), and a task with an interval of zero. The
  clock reads 2025-12-13T00:00:00.000Z.
\<close>

definition scheduledTask :: Task where
  "scheduledTask = \<lparr>task_id = ''scheduled-task'', task_name = ''Scheduled Task'',
                     task_schedule = Some ''5m'', task_enabled = None\<rparr>"

definition backupTask :: Task where
  "backupTask = \<lparr>task_id = ''daily-backup'', task_name = ''Daily Backup'',
                  task_schedule = Some ''0 2 * * *'', task_enabled = None\<rparr>"

definition zeroTask :: Task where
  "zeroTask = \<lparr>task_id = ''busy'', task_name = ''Busy'',
                task_schedule = Some ''0s'', task_enabled = None\<rparr>"

definition midnight :: int where
  "midnight = 1765584000000"

definition oneScheduled :: scheduler where
  "oneScheduled = projr (scheduleTask midnight midnight scheduledTask initial)"

definition twoScheduled :: scheduler where
  "twoScheduled = projr (scheduleTask midnight midnight backupTask oneScheduled)"

definition zeroScheduled :: scheduler where
  "zeroScheduled = projr (scheduleTask midnight midnight zeroTask initial)"

definition onTime :: "int \<Rightarrow> int \<Rightarrow> nat \<Rightarrow> (int \<times> int \<times> int) list" where
  \<comment> \<open>Clock readings of \<open>n\<close> firings that happen exactly every \<open>i\<close> milliseconds from \<open>t\<close> on
      and take no time.\<close>
  "onTime t i n = map (\<lambda>k. (t + int k * i, t + int k * i, t + int k * i)) [0..<n]"

section \<open>The cron service: job store and startup catch-up\<close>

text \<open>
  Modelled from the spec: the jobs, the job store and the startup catch-up of the cron
  service (\<^verbatim>\<open>src/cron/service/store.ts\<close>, \<^verbatim>\<open>ops.ts\<close>, \<^verbatim>\<open>timer.ts\<close>). The sources at hand hold
  the service's test suite and the notes on the fix of its timer race, not its code, so
  the data model (section 3) and the operations (sections 4.1, 4.2 and 4.5) of this
  section follow the specification.
\<close>

datatype Schedule = Once int | Every int | Cron string

record JobState =
  lastRunAtMs :: "int option"
  nextRunAtMs :: "int option"

record Job =
  job_id :: string
  job_name :: string
  job_enabled :: bool
  job_schedule :: Schedule
  payload :: string
  createdAtMs :: int
  state :: JobState

datatype cronError = InvalidScheduleError | NotLoadedError | PersistError

definition computeNextRun ::
  "(string \<Rightarrow> int \<Rightarrow> cronError + int) \<Rightarrow> Schedule \<Rightarrow> int \<Rightarrow> cronError + int option" where
  \<comment> \<open>Modelled from the spec: the schedule calculator \<^verbatim>\<open>computeNextRun\<close> (section 4.1). The
      evaluation of a cron expression in the configured time zone is the parameter
      \<open>cronNext\<close>.\<close>
  "computeNextRun cronNext sched referenceTimeMs =
     (case sched of
        Once atMs \<Rightarrow> Inr (if atMs > referenceTimeMs then Some atMs else None)
      | Every intervalMs \<Rightarrow>
          if intervalMs \<le> 0 then Inl InvalidScheduleError
          else Inr (Some (referenceTimeMs + intervalMs))
      | Cron expression \<Rightarrow>
          (case cronNext expression referenceTimeMs of
             Inl e \<Rightarrow> Inl e
           | Inr t \<Rightarrow> Inr (Some t)))"

definition recomputeJob :: "(string \<Rightarrow> int \<Rightarrow> cronError + int) \<Rightarrow> Job \<Rightarrow> Job" where
  \<comment> \<open>Modelled from the spec: what \<^verbatim>\<open>recomputeNextRuns\<close> (section 4.2) does to one job. The
      reference point is the job's own \<^verbatim>\<open>lastRunAtMs\<close>, or its creation time when it has
      never run; a job whose schedule is invalid is left disabled (section 7).\<close>
  "recomputeJob cronNext j =
     (if \<not> job_enabled j then j
      else
        let reference = (case lastRunAtMs (state j) of Some t \<Rightarrow> t | None \<Rightarrow> createdAtMs j)
        in case computeNextRun cronNext (job_schedule j) reference of
             Inl e \<Rightarrow> j\<lparr>job_enabled := False\<rparr>
           | Inr next \<Rightarrow> j\<lparr>state := (state j)\<lparr>nextRunAtMs := next\<rparr>\<rparr>)"

record JobStore =
  cache :: "Job list option"
  durable :: "Job list"

record LoadOptions =
  forceReload :: bool
  skipRecompute :: bool

definition recomputeNextRuns :: "(string \<Rightarrow> int \<Rightarrow> cronError + int) \<Rightarrow> JobStore \<Rightarrow> JobStore" where
  \<comment> \<open>Modelled from the spec: \<^verbatim>\<open>recomputeNextRuns\<close> of the job store (section 4.2).\<close>
  "recomputeNextRuns cronNext st =
     (case cache st of
        None \<Rightarrow> st
      | Some jobs \<Rightarrow> st\<lparr>cache := Some (map (recomputeJob cronNext) jobs)\<rparr>)"

definition ensureLoaded ::
  "(string \<Rightarrow> int \<Rightarrow> cronError + int) \<Rightarrow> LoadOptions \<Rightarrow> JobStore \<Rightarrow> JobStore" where
  \<comment> \<open>Modelled from the spec: \<^verbatim>\<open>ensureLoaded\<close> of the job store (section 4.2), whose
      source \<^verbatim>\<open>store.ts\<close> is missing.\<close>
  "ensureLoaded cronNext options st =
     (let st1 = (if cache st = None \<or> forceReload options
                 then st\<lparr>cache := Some (durable st)\<rparr> else st)
      in if \<not> skipRecompute options then recomputeNextRuns cronNext st1 else st1)"

definition getJob :: "JobStore \<Rightarrow> string \<Rightarrow> cronError + Job option" where
  \<comment> \<open>Modelled from the spec: the read accessor \<^verbatim>\<open>getJob\<close> of the job store (section 4.2).\<close>
  "getJob st jid =
     (case cache st of
        None \<Rightarrow> Inl NotLoadedError
      | Some jobs \<Rightarrow> Inr (find (\<lambda>j. job_id j = jid) jobs))"

datatype runTag = NormalRun | CatchUpRun

definition recoveryWindowMs :: int where
  \<comment> \<open>Modelled from the spec: the recovery window of six hours (sections 4.5 and 8).\<close>
  "recoveryWindowMs = 6 * 60 * 60000"

definition catchUpDue :: "int \<Rightarrow> int \<Rightarrow> Job \<Rightarrow> bool" where
  \<comment> \<open>Modelled from the spec: the three conditions of the startup catch-up engine
      (section 4.5) on an enabled job.\<close>
  "catchUpDue now window j =
     (job_enabled j \<and>
      (case nextRunAtMs (state j) of
         None \<Rightarrow> False
       | Some next \<Rightarrow> next < now \<and> lastRunAtMs (state j) \<noteq> None \<and> now - next \<le> window))"

fun startupCatchUp ::
  "(string \<Rightarrow> int \<Rightarrow> cronError + int) \<Rightarrow> int \<Rightarrow> int \<Rightarrow> Job list \<Rightarrow> Job list \<times> (string \<times> runTag) list" where
  \<comment> \<open>Modelled from the spec: the startup catch-up engine (section 4.5), whose source
      \<^verbatim>\<open>ops.ts\<close> is missing. It returns the jobs and the executions it dispatched, each
      with its tag. A job it runs gets \<^verbatim>\<open>lastRunAtMs = now\<close> and its next run recomputed from
      there, as in the due-job path; any other job is left as it is.\<close>
  "startupCatchUp cronNext now window [] = ([], [])"
| "startupCatchUp cronNext now window (j # js) =
     (let (js', runs) = startupCatchUp cronNext now window js
      in if catchUpDue now window j
         then (recomputeJob cronNext (j\<lparr>state := (state j)\<lparr>lastRunAtMs := Some now\<rparr>\<rparr>) # js',
               (job_id j, CatchUpRun) # runs)
         else (j # js', runs))"

section \<open>Properties of the schedule calculation\<close>

lemma matchIntervalD:
  assumes "matchInterval s = Some (ds, u)"
  shows "ds \<noteq> []" and "list_all isDigit ds" and "isUnit u" and "s = ds @ [u]"
  using assms by (auto simp: matchInterval_def Let_def split: if_splits)

lemma digitVal_nonneg: "isDigit c \<Longrightarrow> 0 \<le> digitVal c"
  by (auto simp: isDigit_def digitVal_def)

lemma foldl_digits_nonneg:
  "list_all isDigit ds \<Longrightarrow> 0 \<le> n \<Longrightarrow> 0 \<le> foldl (\<lambda>n c. 10 * n + digitVal c) n ds"
proof (induction ds arbitrary: n)
  case Nil
  then show ?case by simp
next
  case (Cons c cs)
  from Cons.prems have "0 \<le> 10 * n + digitVal c"
    using digitVal_nonneg [of c] by simp
  with Cons show ?case by simp
qed

lemma parseInt_nonneg: "list_all isDigit ds \<Longrightarrow> 0 \<le> parseInt ds"
  unfolding parseInt_def by (rule foldl_digits_nonneg) simp_all

lemma unitMs_nonneg: "0 \<le> unitMs u"
  by (simp add: unitMs_def)

lemma unitMs_pos: "isUnit u \<Longrightarrow> 0 < unitMs u"
  by (auto simp: unitMs_def isUnit_def)

lemma calculateIntervalNextRun_match:
  assumes "matchInterval s = Some (ds, u)"
  shows "calculateIntervalNextRun now s = toISOString (newDate (now + parseInt ds * unitMs u))"
  using assms matchIntervalD(3) [OF assms]
  by (auto simp: calculateIntervalNextRun_def unitMs_def isUnit_def Let_def mult.commute)

lemma calculateNextRun_interval:
  assumes "matchInterval s = Some (ds, u)"
  shows "calculateNextRun now s = toISOString (newDate (now + parseInt ds * unitMs u))"
  using assms by (simp add: calculateNextRun_def isIntervalSchedule_def calculateIntervalNextRun_match)

lemma calculateNextRun_cron:
  "\<not> isIntervalSchedule s \<Longrightarrow> calculateNextRun now s = toISOString (newDate (now + 60000))"
  by (simp add: calculateNextRun_def)

lemma toISOString_newDate:
  "\<bar>v\<bar> \<le> maxTimeMs \<Longrightarrow> toISOString (newDate v) = Inr (ISO v)"
  by (simp add: toISOString_def newDate_def)

lemma toISOString_newDate_Inr:
  "toISOString (newDate v) = Inr x \<Longrightarrow> x = ISO v"
  by (auto simp: toISOString_def newDate_def split: if_splits)

text \<open>
  Claim C4. For a well-formed five-field cron expression the next run is to be the
  earliest time after the reference time whose minute, hour, day of month, month and day
  of week satisfy the expression. \<open>calculateNextRun\<close> does not read the expression: for
  \<^verbatim>\<open>0 2 * * *\<close> (daily at 02:00) at midnight of 2025-12-13 it answers one minute past
  midnight, whose hour is 0 and whose minute is 1.
\<close>

theorem calculateNextRun_cron_ignores_expression:
  "calculateNextRun 1765584000000 ''0 2 * * *'' = Inr (ISO 1765584060000) \<and>
   hourOfDay 1765584060000 = 0 \<and> minuteOfHour 1765584060000 = 1"
  by (simp add: calculateNextRun_def isIntervalSchedule_def matchInterval_def isDigit_def
      isUnit_def newDate_def maxTimeMs_def toISOString_def hourOfDay_def minuteOfHour_def)

text \<open>
  Claim C8, as the code has it. The next-run computation of an interval schedule does
  not fail on an interval of zero, and an interval below zero cannot be written as an
  interval schedule. For every interval schedule, of amount zero or more, read at a clock
  \<open>now\<close>, the computation returns the time \<open>now\<close> plus the interval whenever that time is
  within the range of a \<^verbatim>\<open>Date\<close>.
\<close>

theorem calculateNextRun_interval_succeeds:
  assumes "matchInterval sched = Some (ds, u)"
    and "- maxTimeMs \<le> now"
    and "now + parseInt ds * unitMs u \<le> maxTimeMs"
  shows "0 \<le> parseInt ds * unitMs u \<and>
         calculateNextRun now sched = Inr (ISO (now + parseInt ds * unitMs u))"
proof -
  have nn: "0 \<le> parseInt ds * unitMs u"
    using parseInt_nonneg [OF matchIntervalD(2) [OF assms(1)]] unitMs_nonneg [of u] by simp
  with assms(2,3) have "\<bar>now + parseInt ds * unitMs u\<bar> \<le> maxTimeMs" by linarith
  then show ?thesis
    using nn by (simp add: calculateNextRun_interval [OF assms(1)] toISOString_newDate)
qed

theorem calculateNextRun_interval_succeeds_witness:
  "matchInterval ''5m'' = Some (''5'', CHR ''m'') \<and> - maxTimeMs \<le> 1765584000000 \<and>
   1765584000000 + parseInt ''5'' * unitMs CHR ''m'' \<le> maxTimeMs \<and>
   calculateNextRun 1765584000000 ''5m'' = Inr (ISO 1765584300000)"
proof -
  have m: "matchInterval ''5m'' = Some (''5'', CHR ''m'')"
    by (simp add: matchInterval_def isDigit_def isUnit_def)
  have lo: "- maxTimeMs \<le> 1765584000000" by (simp add: maxTimeMs_def)
  have v: "parseInt ''5'' * unitMs CHR ''m'' = 300000"
    by (simp add: parseInt_def digitVal_def unitMs_def)
  have hi: "1765584000000 + parseInt ''5'' * unitMs CHR ''m'' \<le> maxTimeMs"
    by (simp add: v maxTimeMs_def)
  from calculateNextRun_interval_succeeds [OF m lo hi] m lo hi v show ?thesis by simp
qed

text \<open>
  As the claim states it the property fails: the schedule \<^verbatim>\<open>0s\<close> is answered with the
  clock reading itself instead of an error, and an interval that leaves the range of a
  \<^verbatim>\<open>Date\<close> is answered with a \<^verbatim>\<open>RangeError\<close>.
\<close>

theorem calculateNextRun_zero_interval_counterexample:
  "calculateNextRun 1765584000000 ''0s'' = Inr (ISO 1765584000000) \<and>
   calculateNextRun 1765584000000 ''9999999999999d'' = Inl RangeError"
  by (simp add: calculateNextRun_def isIntervalSchedule_def matchInterval_def isDigit_def
      isUnit_def calculateIntervalNextRun_def parseInt_def digitVal_def newDate_def
      maxTimeMs_def toISOString_def)

text \<open>
  Claim C9. For every next-due time and every clock reading the delay a timeout is armed
  with is \<open>max 0 (target - now)\<close>: it is never negative, and it is zero when the due
  time is not after the clock reading. This is the delay of the timeout \<open>startSchedule\<close>
  arms for an entry.
\<close>

theorem calculateDelay_max:
  "calculateDelay now (ISO target) = max 0 (target - now) \<and>
   0 \<le> calculateDelay now (ISO target) \<and>
   (target \<le> now \<longrightarrow> calculateDelay now (ISO target) = 0) \<and>
   (map_of (activeIntervals s) (entry_id (heap s r)) = None \<longrightarrow>
      timers (startSchedule now r s) (nextHandle s) =
        Some (r, max 0 (getTime (nextRun (heap s r)) - now)))"
  by (simp add: calculateDelay_def startSchedule_def Let_def)

theorem calculateDelay_max_witness:
  "calculateDelay 1765584060000 (ISO 1765584000000) = 0 \<and>
   timers (startSchedule 1765584000000 0
      (initial\<lparr>heap := (heap initial)(0 := \<lparr>entry_id = ''schedule-scheduled-task'',
         taskId = ''scheduled-task'', schedule = ''5m'', nextRun = ISO 1765584300000,
         lastRun = None, enabled = True\<rparr>), nextRef := 1\<rparr>)) 0 = Some (0, 300000)"
proof -
  let ?s1 = "initial\<lparr>heap := (heap initial)(0 := \<lparr>entry_id = ''schedule-scheduled-task'',
         taskId = ''scheduled-task'', schedule = ''5m'', nextRun = ISO 1765584300000,
         lastRun = None, enabled = True\<rparr>), nextRef := 1\<rparr>"
  have past: "(1765584000000::int) \<le> 1765584060000" by simp
  have none: "map_of (activeIntervals ?s1) (entry_id (heap ?s1 0)) = None"
    by (simp add: initial_def)
  have h: "nextHandle ?s1 = 0" by (simp add: initial_def)
  from calculateDelay_max [of 1765584060000 1765584000000 ?s1 0] past
  have a: "calculateDelay 1765584060000 (ISO 1765584000000) = 0" by simp
  from calculateDelay_max [of 1765584000000 1765584000000 ?s1 0] none h
  have b: "timers (startSchedule 1765584000000 0 ?s1) 0 = Some (0, 300000)" by simp
  from a b show ?thesis by simp
qed

section \<open>Properties of the job store and of the startup catch-up\<close>

text \<open>
  Claim C2. \<open>ensureLoaded\<close> with \<^verbatim>\<open>forceReload\<close> and \<^verbatim>\<open>skipRecompute\<close> both set replaces the
  cache by the persisted collection as it is: every job read afterwards is the persisted
  job, its \<^verbatim>\<open>nextRunAtMs\<close> included, and the persisted collection is not written.
\<close>

theorem ensureLoaded_forceReload_skipRecompute:
  "cache (ensureLoaded cronNext \<lparr>forceReload = True, skipRecompute = True\<rparr> st) = Some (durable st) \<and>
   durable (ensureLoaded cronNext \<lparr>forceReload = True, skipRecompute = True\<rparr> st) = durable st \<and>
   map (\<lambda>j. nextRunAtMs (state j))
     (the (cache (ensureLoaded cronNext \<lparr>forceReload = True, skipRecompute = True\<rparr> st))) =
     map (\<lambda>j. nextRunAtMs (state j)) (durable st) \<and>
   getJob (ensureLoaded cronNext \<lparr>forceReload = True, skipRecompute = True\<rparr> st) jid =
     Inr (find (\<lambda>j. job_id j = jid) (durable st))"
  by (simp add: ensureLoaded_def getJob_def)

lemma startupCatchUp_runs:
  "snd (startupCatchUp cronNext now window jobs) =
     map (\<lambda>j. (job_id j, CatchUpRun)) (filter (catchUpDue now window) jobs)"
  by (induction jobs) (auto simp: Let_def split: prod.splits)

lemma count_tagged_filter:
  assumes "distinct (map f xs)" and "x \<in> set xs"
  shows "count_list (map (\<lambda>j. (f j, c)) (filter P xs)) (f x, c) = (if P x then 1 else 0)"
  using assms
proof (induction xs)
  case Nil
  then show ?case by simp
next
  case (Cons y ys)
  show ?case
  proof (cases "x = y")
    case True
    with Cons.prems have "f y \<notin> f ` set ys" by simp
    then have "count_list (map (\<lambda>j. (f j, c)) (filter P ys)) (f y, c) = 0"
      by (auto simp: count_list_0_iff)
    with True show ?thesis by simp
  next
    case False
    with Cons.prems have "x \<in> set ys" and "distinct (map f ys)" and "f y \<noteq> f x"
      by auto
    with Cons.IH show ?thesis by simp
  qed
qed

text \<open>
  Claim C3. At startup an enabled job whose persisted \<^verbatim>\<open>nextRunAtMs\<close> is in the past is
  run exactly once with the catch-up tag if it has run before and missed its time by no
  more than the recovery window, and not at all otherwise. Jobs are told apart by their
  identifiers.
\<close>

theorem startupCatchUp_once_iff:
  assumes "distinct (map job_id jobs)" and "j \<in> set jobs" and "job_enabled j"
    and "nextRunAtMs (state j) = Some next" and "next < now"
  shows "count_list (snd (startupCatchUp cronNext now window jobs)) (job_id j, CatchUpRun) =
           (if lastRunAtMs (state j) \<noteq> None \<and> now - next \<le> window then 1 else 0)"
proof -
  have "catchUpDue now window j \<longleftrightarrow> lastRunAtMs (state j) \<noteq> None \<and> now - next \<le> window"
    using assms(3-5) by (simp add: catchUpDue_def)
  then show ?thesis
    using count_tagged_filter [OF assms(1,2), of CatchUpRun "catchUpDue now window"]
    by (simp add: startupCatchUp_runs)
qed

theorem startupCatchUp_once_iff_witness:
  "count_list
     (snd (startupCatchUp (\<lambda>e t. Inr (t + 60000)) (1765584120000 + 5 * 60000) recoveryWindowMs
        [\<lparr>job_id = ''job-1'', job_name = ''missed job test'', job_enabled = True,
          job_schedule = Every 60000, payload = ''missed'', createdAtMs = 1765584000000,
          state = \<lparr>lastRunAtMs = Some 1765584060000, nextRunAtMs = Some 1765584120000\<rparr>\<rparr>]))
     (''job-1'', CatchUpRun) = 1"
proof -
  let ?j = "\<lparr>job_id = ''job-1'', job_name = ''missed job test'', job_enabled = True,
          job_schedule = Every 60000, payload = ''missed'', createdAtMs = 1765584000000,
          state = \<lparr>lastRunAtMs = Some 1765584060000, nextRunAtMs = Some 1765584120000\<rparr>\<rparr>"
  have d: "distinct (map job_id [?j])" by simp
  have m: "?j \<in> set [?j]" by simp
  have e: "job_enabled ?j" by simp
  have n: "nextRunAtMs (state ?j) = Some 1765584120000" by simp
  have p: "(1765584120000::int) < 1765584120000 + 5 * 60000" by simp
  show ?thesis
    using startupCatchUp_once_iff [OF d m e n p, of "\<lambda>e t. Inr (t + 60000)" recoveryWindowMs]
    by (simp add: recoveryWindowMs_def)
qed

text \<open>
  The two other scenarios: a restart seven hours after the missed run, and a job that has
  never run, each with the recovery window of six hours.
\<close>

lemma startupCatchUp_outside_window:
  "snd (startupCatchUp (\<lambda>e t. Inr (t + 60000)) (1765584120000 + 7 * 60 * 60000) recoveryWindowMs
        [\<lparr>job_id = ''job-1'', job_name = ''old missed job test'', job_enabled = True,
          job_schedule = Every 60000, payload = ''old missed'', createdAtMs = 1765584000000,
          state = \<lparr>lastRunAtMs = Some 1765584060000, nextRunAtMs = Some 1765584120000\<rparr>\<rparr>]) = []"
  by (simp add: catchUpDue_def recoveryWindowMs_def)

lemma startupCatchUp_never_run:
  "snd (startupCatchUp (\<lambda>e t. Inr (t + 60000)) (1765584120000 + 5 * 60000) recoveryWindowMs
        [\<lparr>job_id = ''job-1'', job_name = ''new job'', job_enabled = True,
          job_schedule = Every 60000, payload = ''tick'', createdAtMs = 1765584000000,
          state = \<lparr>lastRunAtMs = None, nextRunAtMs = Some 1765584120000\<rparr>\<rparr>]) = []"
  by (simp add: catchUpDue_def recoveryWindowMs_def)

section \<open>The scheduler's state stays well formed\<close>

lemma startSchedule_frame [simp]:
  "heap (startSchedule now r s) = heap s"
  "nextRef (startSchedule now r s) = nextRef s"
  "schedules (startSchedule now r s) = schedules s"
  by (simp_all add: startSchedule_def Let_def)

lemma stopSchedule_frame [simp]:
  "heap (stopSchedule sid s) = heap s"
  "nextRef (stopSchedule sid s) = nextRef s"
  "schedules (stopSchedule sid s) = schedules s"
  by (simp_all add: stopSchedule_def split: option.splits)

lemma wellFormedD:
  assumes "wellFormed s"
  shows "timers s h = Some (r, d) \<Longrightarrow> r < nextRef s"
    and "timers s h = Some (r, d) \<Longrightarrow> map_of (activeIntervals s) (entry_id (heap s r)) = Some h"
    and "map_of (schedules s) k = Some r' \<Longrightarrow> r' < nextRef s"
    and "distinct (map fst (schedules s))"
  using assms unfolding wellFormed_def by blast+

lemma wellFormedI:
  assumes "\<And>h r d. timers s h = Some (r, d) \<Longrightarrow> r < nextRef s"
    and "\<And>h r d. timers s h = Some (r, d) \<Longrightarrow>
           map_of (activeIntervals s) (entry_id (heap s r)) = Some h"
    and "\<And>k r. map_of (schedules s) k = Some r \<Longrightarrow> r < nextRef s"
    and "distinct (map fst (schedules s))"
  shows "wellFormed s"
  using assms unfolding wellFormed_def by blast

lemma wellFormed_startSchedule:
  assumes wf: "wellFormed s" and r: "r < nextRef s"
  shows "wellFormed (startSchedule now r s)"
proof (cases "map_of (activeIntervals s) (entry_id (heap s r))")
  case (Some h)
  then show ?thesis using wf by (simp add: startSchedule_def)
next
  case None
  let ?s' = "startSchedule now r s"
  have T: "timers ?s' = (timers s)(nextHandle s \<mapsto> (r, calculateDelay now (nextRun (heap s r))))"
    using None by (simp add: startSchedule_def Let_def)
  have A: "map_of (activeIntervals ?s') = (map_of (activeIntervals s))(entry_id (heap s r) \<mapsto> nextHandle s)"
    using None by (simp add: startSchedule_def Let_def update_conv')
  show ?thesis
  proof (rule wellFormedI)
    fix h r1 d assume t: "timers ?s' h = Some (r1, d)"
    show "r1 < nextRef ?s'"
      using t r wellFormedD(1) [OF wf] by (auto simp: T split: if_splits)
    show "map_of (activeIntervals ?s') (entry_id (heap ?s' r1)) = Some h"
    proof (cases "h = nextHandle s")
      case True
      with t have "r1 = r" by (simp add: T)
      then have "entry_id (heap ?s' r1) = entry_id (heap s r)" by simp
      then show ?thesis unfolding A True by simp
    next
      case False
      with t have old: "timers s h = Some (r1, d)" by (simp add: T)
      from wellFormedD(2) [OF wf old] None
      have "entry_id (heap s r1) \<noteq> entry_id (heap s r)" by auto
      with wellFormedD(2) [OF wf old] show ?thesis by (simp add: A)
    qed
  next
    fix k r1 assume "map_of (schedules ?s') k = Some r1"
    then show "r1 < nextRef ?s'" using wellFormedD(3) [OF wf] by simp
  next
    show "distinct (map fst (schedules ?s'))" using wellFormedD(4) [OF wf] by simp
  qed
qed

lemma wellFormed_stopSchedule:
  assumes wf: "wellFormed s"
  shows "wellFormed (stopSchedule sid s)"
proof (cases "map_of (activeIntervals s) sid")
  case None
  then show ?thesis using wf by (simp add: stopSchedule_def)
next
  case (Some h0)
  let ?s' = "stopSchedule sid s"
  have T: "timers ?s' = (timers s)(h0 := None)"
    using Some by (simp add: stopSchedule_def)
  have A: "map_of (activeIntervals ?s') = (map_of (activeIntervals s))(sid := None)"
    using Some by (simp add: stopSchedule_def delete_conv')
  show ?thesis
  proof (rule wellFormedI)
    fix h r1 d assume t: "timers ?s' h = Some (r1, d)"
    then have ne: "h \<noteq> h0" and old: "timers s h = Some (r1, d)"
      by (auto simp: T split: if_splits)
    show "r1 < nextRef ?s'" using wellFormedD(1) [OF wf old] by simp
    from wellFormedD(2) [OF wf old] Some ne
    have "entry_id (heap s r1) \<noteq> sid" by auto
    with wellFormedD(2) [OF wf old]
    show "map_of (activeIntervals ?s') (entry_id (heap ?s' r1)) = Some h" by (simp add: A)
  next
    fix k r1 assume "map_of (schedules ?s') k = Some r1"
    then show "r1 < nextRef ?s'" using wellFormedD(3) [OF wf] by simp
  next
    show "distinct (map fst (schedules ?s'))" using wellFormedD(4) [OF wf] by simp
  qed
qed

lemma wellFormed_fold_stopSchedule:
  "wellFormed s \<Longrightarrow> wellFormed (fold stopSchedule ks s)"
  by (induction ks arbitrary: s) (simp_all add: wellFormed_stopSchedule)

lemma fold_stopSchedule_frame [simp]:
  "nextRef (fold stopSchedule ks s) = nextRef s"
  by (induction ks arbitrary: s) simp_all

lemma wellFormed_heap_update:
  assumes "wellFormed s" and "entry_id e = entry_id (heap s r)"
  shows "wellFormed (s\<lparr>heap := (heap s)(r := e)\<rparr>)"
  using assms unfolding wellFormed_def by auto

lemma wellFormed_events_update:
  "wellFormed (s\<lparr>events := evs\<rparr>) = wellFormed s"
  by (simp add: wellFormed_def)

lemma wellFormed_schedules_delete:
  "wellFormed s \<Longrightarrow> wellFormed (s\<lparr>schedules := AList.delete k (schedules s)\<rparr>)"
  unfolding wellFormed_def by (auto simp: delete_conv' distinct_delete split: if_splits)

lemma wellFormed_schedules_clear:
  "wellFormed s \<Longrightarrow> wellFormed (s\<lparr>schedules := []\<rparr>)"
  unfolding wellFormed_def by auto

lemma wellFormed_timer_removed:
  "wellFormed s \<Longrightarrow> wellFormed (s\<lparr>timers := (timers s)(h := None)\<rparr>)"
  unfolding wellFormed_def by (auto split: if_splits)

lemma wellFormed_initial: "wellFormed initial"
  by (simp add: wellFormed_def initial_def)

lemma wellFormed_alloc:
  assumes "wellFormed s"
  shows "wellFormed (s\<lparr>heap := (heap s)(nextRef s := e), nextRef := Suc (nextRef s),
                       schedules := AList.update k (nextRef s) (schedules s)\<rparr>)"
  using assms unfolding wellFormed_def
  by (auto simp: update_conv' distinct_update less_Suc_eq split: if_splits)

lemma wellFormed_scheduleTask:
  assumes "wellFormed s" and "scheduleTask now now' task s = Inr s'"
  shows "wellFormed s'"
proof -
  from assms(2) obtain sched nxt where
    s': "s' = (let entry = \<lparr>entry_id = ''schedule-'' @ task_id task, taskId = task_id task,
                   schedule = sched, nextRun = nxt, lastRun = None,
                   enabled = (task_enabled task \<noteq> Some False)\<rparr>;
                   s1 = s\<lparr>heap := (heap s)(nextRef s := entry), nextRef := Suc (nextRef s),
                          schedules := AList.update (entry_id entry) (nextRef s) (schedules s)\<rparr>
               in if enabled entry then startSchedule now' (nextRef s) s1 else s1)"
    by (auto simp: scheduleTask_def Let_def split: option.splits if_splits sum.splits)
  show ?thesis
    unfolding s' Let_def
    using wellFormed_alloc [OF assms(1)]
    by (auto intro!: wellFormed_startSchedule)
qed

lemma wellFormed_unscheduleTask:
  assumes "wellFormed s" and "unscheduleTask tid s = (b, s')"
  shows "wellFormed s'"
proof (cases "map_of (schedules s) (''schedule-'' @ tid)")
  case None
  with assms show ?thesis by (simp add: unscheduleTask_def)
next
  case (Some r)
  with assms(2) have "s' = (stopSchedule (''schedule-'' @ tid) s)
      \<lparr>schedules := AList.delete (''schedule-'' @ tid) (schedules (stopSchedule (''schedule-'' @ tid) s))\<rparr>"
    by (simp add: unscheduleTask_def Let_def)
  then show ?thesis
    using wellFormed_schedules_delete [OF wellFormed_stopSchedule [OF assms(1)]] by simp
qed

lemma wellFormed_enableSchedule:
  assumes "wellFormed s" and "enableSchedule now tid s = Inr s'"
  shows "wellFormed s'"
proof -
  from assms(2) obtain r where r: "map_of (schedules s) (''schedule-'' @ tid) = Some r"
    and s': "s' = startSchedule now r (s\<lparr>heap := (heap s)(r := (heap s r)\<lparr>enabled := True\<rparr>)\<rparr>)"
    by (auto simp: enableSchedule_def Let_def split: option.splits)
  from assms(1) r have "r < nextRef s" by (auto simp: wellFormed_def)
  then show ?thesis
    unfolding s' using wellFormed_heap_update [OF assms(1), of "(heap s r)\<lparr>enabled := True\<rparr>" r]
    by (auto intro!: wellFormed_startSchedule)
qed

lemma wellFormed_disableSchedule:
  assumes "wellFormed s" and "disableSchedule tid s = Inr s'"
  shows "wellFormed s'"
proof -
  from assms(2) obtain r where
    s': "s' = stopSchedule (''schedule-'' @ tid) (s\<lparr>heap := (heap s)(r := (heap s r)\<lparr>enabled := False\<rparr>)\<rparr>)"
    by (auto simp: disableSchedule_def Let_def split: option.splits)
  show ?thesis
    unfolding s' using wellFormed_heap_update [OF assms(1), of "(heap s r)\<lparr>enabled := False\<rparr>" r]
    by (auto intro!: wellFormed_stopSchedule)
qed

lemma wellFormed_cleanupScheduler:
  "wellFormed s \<Longrightarrow> wellFormed (cleanupScheduler s)"
  by (simp add: cleanupScheduler_def Let_def wellFormed_schedules_clear wellFormed_fold_stopSchedule)

lemma executeScheduledTask_success:
  assumes "calculateNextRun t1 (schedule (heap s r)) = Inr nxt"
  shows "executeScheduledTask t0 t1 t2 r s =
     Inr (let s2 = s\<lparr>heap := (heap s)(r := (heap s r)\<lparr>lastRun := Some (ISO t0), nextRun := nxt\<rparr>),
                          events := events s @ [LastRunUpdated (entry_id (heap s r)) (ISO t0),
                                                NextRunComputed (entry_id (heap s r)) nxt]\<rparr>;
                   s3 = (if enabled (heap s r) then startSchedule t2 r s2 else s2)
               in s3\<lparr>events := events s3 @ [TaskExecutionTriggered (taskId (heap s r))]\<rparr>)"
proof (cases "enabled (heap s r)")
  case True
  then show ?thesis using assms by (simp add: executeScheduledTask_def Let_def)
next
  case False
  then show ?thesis using assms by (simp add: executeScheduledTask_def Let_def)
qed

lemma executeScheduledTask_Inr:
  assumes "executeScheduledTask t0 t1 t2 r s = Inr s'"
  obtains nxt where "calculateNextRun t1 (schedule (heap s r)) = Inr nxt"
    and "s' = (let s2 = s\<lparr>heap := (heap s)(r := (heap s r)\<lparr>lastRun := Some (ISO t0), nextRun := nxt\<rparr>),
                          events := events s @ [LastRunUpdated (entry_id (heap s r)) (ISO t0),
                                                NextRunComputed (entry_id (heap s r)) nxt]\<rparr>;
                   s3 = (if enabled (heap s r) then startSchedule t2 r s2 else s2)
               in s3\<lparr>events := events s3 @ [TaskExecutionTriggered (taskId (heap s r))]\<rparr>)"
proof (cases "calculateNextRun t1 (schedule (heap s r))")
  case (Inl e)
  with assms show ?thesis by (simp add: executeScheduledTask_def Let_def)
next
  case (Inr nxt)
  from assms executeScheduledTask_success [OF Inr, of t0 t2] that [OF Inr] show ?thesis by simp
qed

lemma executeScheduledTask_Inl:
  assumes "executeScheduledTask t0 t1 t2 r s = Inl (e, s')"
  shows "s' = s\<lparr>heap := (heap s)(r := (heap s r)\<lparr>lastRun := Some (ISO t0)\<rparr>),
                events := events s @ [LastRunUpdated (entry_id (heap s r)) (ISO t0)]\<rparr>"
  using assms
  by (auto simp: executeScheduledTask_def Let_def split: sum.splits)

lemma executeScheduledTask_heap:
  assumes "executeScheduledTask t0 t1 t2 r s = Inr s'"
  shows "\<exists>nxt. calculateNextRun t1 (schedule (heap s r)) = Inr nxt \<and>
     heap s' = (heap s)(r := (heap s r)\<lparr>lastRun := Some (ISO t0), nextRun := nxt\<rparr>)"
  using assms by (rule executeScheduledTask_Inr) (auto simp: Let_def)

lemma startSchedule_events:
  "events (startSchedule now r s) =
     events s @ (if map_of (activeIntervals s) (entry_id (heap s r)) = None
                 then [TimerArmed (entry_id (heap s r)) (calculateDelay now (nextRun (heap s r)))]
                 else [])"
  by (simp add: startSchedule_def Let_def)

lemma executeScheduledTask_events:
  assumes "executeScheduledTask t0 t1 t2 r s = Inr s'"
  shows "\<exists>nxt. calculateNextRun t1 (schedule (heap s r)) = Inr nxt \<and>
     events s' = events s @
       [LastRunUpdated (entry_id (heap s r)) (ISO t0), NextRunComputed (entry_id (heap s r)) nxt] @
       (if enabled (heap s r) \<and> map_of (activeIntervals s) (entry_id (heap s r)) = None
        then [TimerArmed (entry_id (heap s r)) (calculateDelay t2 nxt)] else []) @
       [TaskExecutionTriggered (taskId (heap s r))]"
  using assms by (rule executeScheduledTask_Inr) (auto simp: Let_def startSchedule_events)

lemma wellFormed_executeScheduledTask:
  assumes wf: "wellFormed s" and r: "r < nextRef s"
  shows "executeScheduledTask t0 t1 t2 r s = Inr s' \<Longrightarrow> wellFormed s'"
    and "executeScheduledTask t0 t1 t2 r s = Inl (e, s'') \<Longrightarrow> wellFormed s''"
proof -
  assume "executeScheduledTask t0 t1 t2 r s = Inr s'"
  then obtain nxt where s': "s' = (let s2 = s\<lparr>heap := (heap s)(r := (heap s r)\<lparr>lastRun := Some (ISO t0), nextRun := nxt\<rparr>),
                          events := events s @ [LastRunUpdated (entry_id (heap s r)) (ISO t0),
                                                NextRunComputed (entry_id (heap s r)) nxt]\<rparr>;
                   s3 = (if enabled (heap s r) then startSchedule t2 r s2 else s2)
               in s3\<lparr>events := events s3 @ [TaskExecutionTriggered (taskId (heap s r))]\<rparr>)"
    by (rule executeScheduledTask_Inr)
  let ?s2 = "s\<lparr>heap := (heap s)(r := (heap s r)\<lparr>lastRun := Some (ISO t0), nextRun := nxt\<rparr>),
                          events := events s @ [LastRunUpdated (entry_id (heap s r)) (ISO t0),
                                                NextRunComputed (entry_id (heap s r)) nxt]\<rparr>"
  have "wellFormed (s\<lparr>heap := (heap s)(r := (heap s r)\<lparr>lastRun := Some (ISO t0), nextRun := nxt\<rparr>)\<rparr>)"
    by (rule wellFormed_heap_update [OF wf]) simp
  then have wf2: "wellFormed ?s2" by (simp add: wellFormed_def)
  have "wellFormed (startSchedule t2 r ?s2)"
    by (rule wellFormed_startSchedule [OF wf2]) (simp add: r)
  with wf2 show "wellFormed s'"
    unfolding s' Let_def by (simp add: wellFormed_events_update)
next
  assume "executeScheduledTask t0 t1 t2 r s = Inl (e, s'')"
  then have s'': "s'' = s\<lparr>heap := (heap s)(r := (heap s r)\<lparr>lastRun := Some (ISO t0)\<rparr>),
                events := events s @ [LastRunUpdated (entry_id (heap s r)) (ISO t0)]\<rparr>"
    by (rule executeScheduledTask_Inl)
  have "wellFormed (s\<lparr>heap := (heap s)(r := (heap s r)\<lparr>lastRun := Some (ISO t0)\<rparr>)\<rparr>)"
    by (rule wellFormed_heap_update [OF wf]) simp
  then show "wellFormed s''" unfolding s'' by (simp add: wellFormed_def)
qed

lemma wellFormed_fireTimer:
  assumes wf: "wellFormed s" and "fireTimer t0 t1 t2 h s = Some s'"
  shows "wellFormed s'"
proof -
  from assms(2) obtain r d where t: "timers s h = Some (r, d)"
    by (auto simp: fireTimer_def split: option.splits)
  let ?s0 = "s\<lparr>timers := (timers s)(h := None)\<rparr>"
  have wf0: "wellFormed ?s0" by (rule wellFormed_timer_removed [OF wf])
  have r: "r < nextRef ?s0" using wellFormedD(1) [OF wf t] by simp
  from assms(2) t have "executeScheduledTask t0 t1 t2 r ?s0 = Inr s' \<or>
      (\<exists>e. executeScheduledTask t0 t1 t2 r ?s0 = Inl (e, s'))"
    by (auto simp: fireTimer_def split: sum.splits)
  then show ?thesis
    using wellFormed_executeScheduledTask [OF wf0 r] by blast
qed

lemma reachable_wellFormed: "reachable s \<Longrightarrow> wellFormed s"
proof (induction rule: reachable.induct)
  case init
  show ?case by (rule wellFormed_initial)
next
  case (schedule s now now' task s')
  then show ?case by (blast intro: wellFormed_scheduleTask)
next
  case (unschedule s tid b s')
  then show ?case by (blast intro: wellFormed_unscheduleTask)
next
  case (enable s now tid s')
  then show ?case by (blast intro: wellFormed_enableSchedule)
next
  case (disable s tid s')
  then show ?case by (blast intro: wellFormed_disableSchedule)
next
  case (cleanup s)
  then show ?case by (blast intro: wellFormed_cleanupScheduler)
next
  case (fire s t0 t1 t2 h s')
  then show ?case by (blast intro: wellFormed_fireTimer)
qed

section \<open>Example states\<close>

lemmas sched_eval = scheduleTask_def calculateNextRun_def isIntervalSchedule_def matchInterval_def
  isDigit_def isUnit_def calculateIntervalNextRun_def parseInt_def digitVal_def newDate_def
  maxTimeMs_def toISOString_def startSchedule_def calculateDelay_def initial_def Let_def
  scheduledTask_def backupTask_def zeroTask_def midnight_def

lemma scheduleTask_one:
  "scheduleTask midnight midnight scheduledTask initial =
     Inr \<lparr>heap = (\<lambda>_. blankEntry)(0 := \<lparr>entry_id = ''schedule-scheduled-task'', taskId = ''scheduled-task'',
              schedule = ''5m'', nextRun = ISO 1765584300000, lastRun = None, enabled = True\<rparr>),
          nextRef = 1, schedules = [(''schedule-scheduled-task'', 0)],
          activeIntervals = [(''schedule-scheduled-task'', 0)],
          timers = [0 \<mapsto> (0, 300000)], nextHandle = 1,
          events = [TimerArmed ''schedule-scheduled-task'' 300000]\<rparr>"
  by (simp add: sched_eval)

lemma oneScheduled_eq:
  "oneScheduled =
     \<lparr>heap = (\<lambda>_. blankEntry)(0 := \<lparr>entry_id = ''schedule-scheduled-task'', taskId = ''scheduled-task'',
              schedule = ''5m'', nextRun = ISO 1765584300000, lastRun = None, enabled = True\<rparr>),
          nextRef = 1, schedules = [(''schedule-scheduled-task'', 0)],
          activeIntervals = [(''schedule-scheduled-task'', 0)],
          timers = [0 \<mapsto> (0, 300000)], nextHandle = 1,
          events = [TimerArmed ''schedule-scheduled-task'' 300000]\<rparr>"
  by (simp add: oneScheduled_def scheduleTask_one)

lemma reachable_oneScheduled: "reachable oneScheduled"
  using reachable.schedule [OF reachable.init scheduleTask_one]
  by (simp add: oneScheduled_eq)

lemma scheduleTask_two:
  "scheduleTask midnight midnight backupTask oneScheduled =
     Inr \<lparr>heap = (\<lambda>_. blankEntry)(0 := \<lparr>entry_id = ''schedule-scheduled-task'', taskId = ''scheduled-task'',
              schedule = ''5m'', nextRun = ISO 1765584300000, lastRun = None, enabled = True\<rparr>,
              1 := \<lparr>entry_id = ''schedule-daily-backup'', taskId = ''daily-backup'',
              schedule = ''0 2 * * *'', nextRun = ISO 1765584060000, lastRun = None, enabled = True\<rparr>),
          nextRef = 2, schedules = [(''schedule-scheduled-task'', 0), (''schedule-daily-backup'', 1)],
          activeIntervals = [(''schedule-scheduled-task'', 0), (''schedule-daily-backup'', 1)],
          timers = [0 \<mapsto> (0, 300000), 1 \<mapsto> (1, 60000)], nextHandle = 2,
          events = [TimerArmed ''schedule-scheduled-task'' 300000, TimerArmed ''schedule-daily-backup'' 60000]\<rparr>"
  by (simp add: oneScheduled_eq sched_eval)

lemma twoScheduled_eq:
  "twoScheduled =
     \<lparr>heap = (\<lambda>_. blankEntry)(0 := \<lparr>entry_id = ''schedule-scheduled-task'', taskId = ''scheduled-task'',
              schedule = ''5m'', nextRun = ISO 1765584300000, lastRun = None, enabled = True\<rparr>,
              1 := \<lparr>entry_id = ''schedule-daily-backup'', taskId = ''daily-backup'',
              schedule = ''0 2 * * *'', nextRun = ISO 1765584060000, lastRun = None, enabled = True\<rparr>),
          nextRef = 2, schedules = [(''schedule-scheduled-task'', 0), (''schedule-daily-backup'', 1)],
          activeIntervals = [(''schedule-scheduled-task'', 0), (''schedule-daily-backup'', 1)],
          timers = [0 \<mapsto> (0, 300000), 1 \<mapsto> (1, 60000)], nextHandle = 2,
          events = [TimerArmed ''schedule-scheduled-task'' 300000, TimerArmed ''schedule-daily-backup'' 60000]\<rparr>"
  by (simp add: twoScheduled_def scheduleTask_two)

lemma reachable_twoScheduled: "reachable twoScheduled"
  using reachable.schedule [OF reachable_oneScheduled scheduleTask_two]
  by (simp add: twoScheduled_eq)

lemma scheduleTask_zero:
  "scheduleTask midnight midnight zeroTask initial =
     Inr \<lparr>heap = (\<lambda>_. blankEntry)(0 := \<lparr>entry_id = ''schedule-busy'', taskId = ''busy'',
              schedule = ''0s'', nextRun = ISO 1765584000000, lastRun = None, enabled = True\<rparr>),
          nextRef = 1, schedules = [(''schedule-busy'', 0)],
          activeIntervals = [(''schedule-busy'', 0)],
          timers = [0 \<mapsto> (0, 0)], nextHandle = 1,
          events = [TimerArmed ''schedule-busy'' 0]\<rparr>"
  by (simp add: sched_eval)

lemma zeroScheduled_eq:
  "zeroScheduled =
     \<lparr>heap = (\<lambda>_. blankEntry)(0 := \<lparr>entry_id = ''schedule-busy'', taskId = ''busy'',
              schedule = ''0s'', nextRun = ISO 1765584000000, lastRun = None, enabled = True\<rparr>),
          nextRef = 1, schedules = [(''schedule-busy'', 0)],
          activeIntervals = [(''schedule-busy'', 0)],
          timers = [0 \<mapsto> (0, 0)], nextHandle = 1,
          events = [TimerArmed ''schedule-busy'' 0]\<rparr>"
  by (simp add: zeroScheduled_def scheduleTask_zero)

lemmas fire_eval = executeScheduledTask_def fireTimer_def calculateNextRun_def isIntervalSchedule_def
  matchInterval_def isDigit_def isUnit_def calculateIntervalNextRun_def parseInt_def digitVal_def
  newDate_def maxTimeMs_def toISOString_def startSchedule_def calculateDelay_def Let_def midnight_def

lemma execute_oneScheduled:
  "executeScheduledTask (midnight + 300000) (midnight + 300000) (midnight + 300000) 0 oneScheduled =
    Inr (oneScheduled\<lparr>heap := (heap oneScheduled)(0 := \<lparr>entry_id = ''schedule-scheduled-task'', taskId = ''scheduled-task'',
              schedule = ''5m'', nextRun = ISO 1765584600000, lastRun = Some (ISO 1765584300000), enabled = True\<rparr>),
          events := [TimerArmed ''schedule-scheduled-task'' 300000,
             LastRunUpdated ''schedule-scheduled-task'' (ISO 1765584300000),
             NextRunComputed ''schedule-scheduled-task'' (ISO 1765584600000),
             TaskExecutionTriggered ''scheduled-task'']\<rparr>)"
  by (simp add: oneScheduled_eq fire_eval)

lemma match_oneScheduled:
  "matchInterval (schedule (heap oneScheduled 0)) = Some (''5'', CHR ''m'')"
  by (simp add: oneScheduled_eq matchInterval_def isDigit_def isUnit_def)

lemma execute_oneScheduled_late:
  "executeScheduledTask (midnight + 300000) (midnight + 300001) (midnight + 300001) 0 oneScheduled =
    Inr (oneScheduled\<lparr>heap := (heap oneScheduled)(0 := \<lparr>entry_id = ''schedule-scheduled-task'', taskId = ''scheduled-task'',
              schedule = ''5m'', nextRun = ISO 1765584600001, lastRun = Some (ISO 1765584300000), enabled = True\<rparr>),
          events := [TimerArmed ''schedule-scheduled-task'' 300000,
             LastRunUpdated ''schedule-scheduled-task'' (ISO 1765584300000),
             NextRunComputed ''schedule-scheduled-task'' (ISO 1765584600001),
             TaskExecutionTriggered ''scheduled-task'']\<rparr>)"
  by (simp add: oneScheduled_eq fire_eval)

lemma calc_backup:
  "calculateNextRun midnight ''0 2 * * *'' = Inr (ISO 1765584060000)"
  by (simp add: calculateNextRun_def isIntervalSchedule_def matchInterval_def isDigit_def
      isUnit_def newDate_def maxTimeMs_def toISOString_def midnight_def)

section \<open>Timeouts\<close>

lemma startSchedule_recorded:
  "map_of (activeIntervals s) (entry_id (heap s r)) = Some h \<Longrightarrow> startSchedule now r s = s"
  by (simp add: startSchedule_def)

text \<open>
  Claim C7, as the code has it. The scheduler keeps one timeout for each schedule id, not
  one for the whole scheduler, and \<open>startSchedule\<close> never cancels: in every state the
  module can reach, two pending timeouts whose entries carry the same schedule id are the
  same timeout, and \<open>startSchedule\<close> on an entry that has a pending timeout returns
  without arming or cancelling anything.
\<close>

theorem one_timeout_per_schedule:
  assumes "reachable s"
    and "timers s h = Some (r, d)" and "timers s h' = Some (r', d')"
    and "entry_id (heap s r) = entry_id (heap s r')"
  shows "h = h' \<and> startSchedule now r s = s"
proof -
  have wf: "wellFormed s" by (rule reachable_wellFormed [OF assms(1)])
  have a: "map_of (activeIntervals s) (entry_id (heap s r)) = Some h"
    by (rule wellFormedD(2) [OF wf assms(2)])
  have b: "map_of (activeIntervals s) (entry_id (heap s r')) = Some h'"
    by (rule wellFormedD(2) [OF wf assms(3)])
  from a b assms(4) have "h = h'" by simp
  with startSchedule_recorded [OF a] show ?thesis by simp
qed

theorem one_timeout_per_schedule_witness:
  "timers twoScheduled 1 = Some (1, 60000) \<and>
   startSchedule (midnight + 1) 1 twoScheduled = twoScheduled"
proof -
  have t: "timers twoScheduled 1 = Some (1, 60000)" by (simp add: twoScheduled_eq)
  have e: "entry_id (heap twoScheduled 1) = entry_id (heap twoScheduled 1)" by simp
  from one_timeout_per_schedule [OF reachable_twoScheduled t t e, of "midnight + 1"] t
  show ?thesis by simp
qed

text \<open>
  As the claim states it the property fails: once two tasks are scheduled two timeouts are
  pending together, and the second was armed without a \<^verbatim>\<open>clearTimeout\<close> of the first.
\<close>

theorem two_timeouts_outstanding_counterexample:
  "reachable twoScheduled \<and>
   timers twoScheduled 0 = Some (0, 300000) \<and> timers twoScheduled 1 = Some (1, 60000) \<and>
   events twoScheduled =
     [TimerArmed ''schedule-scheduled-task'' 300000, TimerArmed ''schedule-daily-backup'' 60000]"
  using reachable_twoScheduled by (simp add: twoScheduled_eq)

text \<open>
  A firing never arms a timeout: the fired one is still recorded in \<^verbatim>\<open>activeIntervals\<close>
  when the callback reaches \<open>startSchedule\<close>, which then returns at once.
\<close>

lemma fireTimer_never_rearms:
  assumes "reachable s" and "fireTimer t0 t1 t2 h s = Some s'"
  shows "timers s' = (timers s)(h := None)"
proof -
  have wf: "wellFormed s" by (rule reachable_wellFormed [OF assms(1)])
  from assms(2) obtain r d where t: "timers s h = Some (r, d)"
    by (auto simp: fireTimer_def split: option.splits)
  let ?s0 = "s\<lparr>timers := (timers s)(h := None)\<rparr>"
  have rec: "map_of (activeIntervals s) (entry_id (heap s r)) = Some h"
    by (rule wellFormedD(2) [OF wf t])
  show ?thesis
  proof (cases "calculateNextRun t1 (schedule (heap s r))")
    case (Inl e)
    with assms(2) t show ?thesis
      by (auto simp: fireTimer_def executeScheduledTask_def Let_def)
  next
    case (Inr nxt)
    with assms(2) t rec show ?thesis
      by (auto simp: fireTimer_def executeScheduledTask_def Let_def startSchedule_def)
  qed
qed

section \<open>Scheduling a task\<close>

lemma filter_key_absent:
  "k \<notin> fst ` set al \<Longrightarrow> filter (\<lambda>p. fst p = k) al = []"
  by (induction al) auto

lemma length_filter_update:
  "distinct (map fst al) \<Longrightarrow> length (filter (\<lambda>p. fst p = k) (AList.update k v al)) = 1"
proof (induction al)
  case Nil
  then show ?case by simp
next
  case (Cons p ps)
  show ?case
  proof (cases "fst p = k")
    case True
    with Cons.prems have "k \<notin> fst ` set ps" by auto
    with True show ?thesis by (simp add: filter_key_absent)
  next
    case False
    with Cons show ?thesis by simp
  qed
qed

lemma scheduleTask_no_schedule:
  "task_schedule task = None \<or> task_schedule task = Some [] \<Longrightarrow>
   scheduleTask now now' task s = Inl (Error ''Task must have a schedule'', s)"
  by (auto simp: scheduleTask_def)

lemma scheduleTask_success:
  assumes "task_schedule task = Some sched" and "sched \<noteq> []"
    and "calculateNextRun now sched = Inr nxt"
  shows "scheduleTask now now' task s =
     Inr (let entry = \<lparr>entry_id = ''schedule-'' @ task_id task, taskId = task_id task,
                       schedule = sched, nextRun = nxt, lastRun = None,
                       enabled = (task_enabled task \<noteq> Some False)\<rparr>;
              s1 = s\<lparr>heap := (heap s)(nextRef s := entry), nextRef := Suc (nextRef s),
                     schedules := AList.update (entry_id entry) (nextRef s) (schedules s)\<rparr>
          in if enabled entry then startSchedule now' (nextRef s) s1 else s1)"
  using assms by (simp add: scheduleTask_def Let_def)

text \<open>
  Claim C10, as the code has it. For a task whose schedule is absent or the empty string,
  \<open>scheduleTask\<close> throws and the state at the throw is the state it was called in. For
  a task with a non-empty schedule whose next run is computed, it stores one entry under
  the key \<^verbatim>\<open>schedule-\<close> followed by the task id: the store then holds exactly one entry
  under that key, every other key is as before, and the entry is enabled unless the
  task's \<^verbatim>\<open>enabled\<close> field is \<^verbatim>\<open>false\<close>.
\<close>

theorem scheduleTask_adds_entry:
  assumes "reachable s"
  shows "(task_schedule task = None \<or> task_schedule task = Some [] \<longrightarrow>
            scheduleTask now now' task s = Inl (Error ''Task must have a schedule'', s)) \<and>
         (task_schedule task = Some sched \<and> sched \<noteq> [] \<and> calculateNextRun now sched = Inr nxt \<longrightarrow>
            (\<exists>s' r. scheduleTask now now' task s = Inr s' \<and>
               map_of (schedules s') (''schedule-'' @ task_id task) = Some r \<and>
               heap s' r = \<lparr>entry_id = ''schedule-'' @ task_id task, taskId = task_id task,
                             schedule = sched, nextRun = nxt, lastRun = None,
                             enabled = (task_enabled task \<noteq> Some False)\<rparr> \<and>
               length (filter (\<lambda>p. fst p = ''schedule-'' @ task_id task) (schedules s')) = 1 \<and>
               (\<forall>k. k \<noteq> ''schedule-'' @ task_id task \<longrightarrow>
                     map_of (schedules s') k = map_of (schedules s) k)))"
proof (intro conjI impI)
  assume "task_schedule task = None \<or> task_schedule task = Some []"
  then show "scheduleTask now now' task s = Inl (Error ''Task must have a schedule'', s)"
    by (rule scheduleTask_no_schedule)
next
  assume a: "task_schedule task = Some sched \<and> sched \<noteq> [] \<and> calculateNextRun now sched = Inr nxt"
  have d: "distinct (map fst (schedules s))"
    by (rule wellFormedD(4) [OF reachable_wellFormed [OF assms]])
  let ?entry = "\<lparr>entry_id = ''schedule-'' @ task_id task, taskId = task_id task,
                       schedule = sched, nextRun = nxt, lastRun = None,
                       enabled = (task_enabled task \<noteq> Some False)\<rparr>"
  let ?s1 = "s\<lparr>heap := (heap s)(nextRef s := ?entry), nextRef := Suc (nextRef s),
                     schedules := AList.update (''schedule-'' @ task_id task) (nextRef s) (schedules s)\<rparr>"
  let ?s' = "if enabled ?entry then startSchedule now' (nextRef s) ?s1 else ?s1"
  from a have eq: "scheduleTask now now' task s = Inr ?s'"
    by (simp add: scheduleTask_success Let_def)
  have sch: "schedules ?s' = AList.update (''schedule-'' @ task_id task) (nextRef s) (schedules s)"
    by simp
  have hp: "heap ?s' = (heap s)(nextRef s := ?entry)" by simp
  have "map_of (schedules ?s') (''schedule-'' @ task_id task) = Some (nextRef s)"
    unfolding sch by (simp add: update_conv')
  moreover have "heap ?s' (nextRef s) = ?entry" unfolding hp by simp
  moreover have "length (filter (\<lambda>p. fst p = ''schedule-'' @ task_id task) (schedules ?s')) = 1"
    unfolding sch by (rule length_filter_update [OF d])
  moreover have "\<forall>k. k \<noteq> ''schedule-'' @ task_id task \<longrightarrow>
                     map_of (schedules ?s') k = map_of (schedules s) k"
    unfolding sch by (simp add: update_conv')
  ultimately show "\<exists>s' r. scheduleTask now now' task s = Inr s' \<and>
               map_of (schedules s') (''schedule-'' @ task_id task) = Some r \<and>
               heap s' r = ?entry \<and>
               length (filter (\<lambda>p. fst p = ''schedule-'' @ task_id task) (schedules s')) = 1 \<and>
               (\<forall>k. k \<noteq> ''schedule-'' @ task_id task \<longrightarrow>
                     map_of (schedules s') k = map_of (schedules s) k)"
    using eq by blast
qed

theorem scheduleTask_adds_entry_witness:
  "scheduleTask midnight midnight \<lparr>task_id = ''no-schedule'', task_name = ''Plain'',
       task_schedule = None, task_enabled = None\<rparr> oneScheduled
     = Inl (Error ''Task must have a schedule'', oneScheduled) \<and>
   (\<exists>s' r. scheduleTask midnight midnight backupTask oneScheduled = Inr s' \<and>
      map_of (schedules s') ''schedule-daily-backup'' = Some r \<and>
      heap s' r = \<lparr>entry_id = ''schedule-daily-backup'', taskId = ''daily-backup'',
                    schedule = ''0 2 * * *'', nextRun = ISO 1765584060000, lastRun = None,
                    enabled = True\<rparr> \<and>
      length (filter (\<lambda>p. fst p = ''schedule-daily-backup'') (schedules s')) = 1)"
proof -
  have a: "scheduleTask midnight midnight \<lparr>task_id = ''no-schedule'', task_name = ''Plain'',
       task_schedule = None, task_enabled = None\<rparr> oneScheduled
     = Inl (Error ''Task must have a schedule'', oneScheduled)"
    using scheduleTask_adds_entry [OF reachable_oneScheduled,
        of "\<lparr>task_id = ''no-schedule'', task_name = ''Plain'', task_schedule = None, task_enabled = None\<rparr>"
           midnight midnight]
    by simp
  have b: "\<exists>s' r. scheduleTask midnight midnight backupTask oneScheduled = Inr s' \<and>
      map_of (schedules s') ''schedule-daily-backup'' = Some r \<and>
      heap s' r = \<lparr>entry_id = ''schedule-daily-backup'', taskId = ''daily-backup'',
                    schedule = ''0 2 * * *'', nextRun = ISO 1765584060000, lastRun = None,
                    enabled = True\<rparr> \<and>
      length (filter (\<lambda>p. fst p = ''schedule-daily-backup'') (schedules s')) = 1"
    using scheduleTask_adds_entry [OF reachable_oneScheduled,
        of backupTask midnight midnight "''0 2 * * *''" "ISO 1765584060000"] calc_backup
    by (simp add: backupTask_def) blast
  from a b show ?thesis by blast
qed

text \<open>
  As the claim states it the property fails: a task whose schedule field holds the empty
  string is refused like a task without the field, and a task whose interval leaves the
  range of a \<^verbatim>\<open>Date\<close> is refused with a \<^verbatim>\<open>RangeError\<close>; neither adds an entry.
\<close>

theorem scheduleTask_empty_schedule_counterexample:
  "scheduleTask midnight midnight \<lparr>task_id = ''blank'', task_name = ''Blank'',
       task_schedule = Some '''', task_enabled = None\<rparr> initial
     = Inl (Error ''Task must have a schedule'', initial) \<and>
   scheduleTask midnight midnight \<lparr>task_id = ''far'', task_name = ''Far'',
       task_schedule = Some ''9999999999999d'', task_enabled = None\<rparr> initial
     = Inl (RangeError, initial)"
  by (simp add: scheduleTask_def calculateNextRun_def isIntervalSchedule_def matchInterval_def
      isDigit_def isUnit_def calculateIntervalNextRun_def parseInt_def digitVal_def newDate_def
      maxTimeMs_def toISOString_def midnight_def)

section \<open>The callback of a timeout\<close>

lemma calculateNextRun_Inr_time:
  assumes "calculateNextRun t sched = Inr nxt"
  shows "getTime nxt =
    t + (case matchInterval sched of None \<Rightarrow> 60000 | Some (ds, u) \<Rightarrow> parseInt ds * unitMs u)"
proof (cases "matchInterval sched")
  case None
  then have "\<not> isIntervalSchedule sched" by (simp add: isIntervalSchedule_def)
  from assms [unfolded calculateNextRun_cron [OF this]] None
  show ?thesis by (auto dest: toISOString_newDate_Inr)
next
  case (Some p)
  obtain ds u where p: "p = (ds, u)" by (cases p)
  from assms [unfolded calculateNextRun_interval [OF Some [unfolded p]]] Some p
  show ?thesis by (auto dest: toISOString_newDate_Inr)
qed

lemma calculateNextRun_Inr_later:
  assumes "calculateNextRun t sched = Inr nxt"
  shows "t \<le> getTime nxt" and "\<not> zeroInterval sched \<Longrightarrow> t < getTime nxt"
proof -
  note eq = calculateNextRun_Inr_time [OF assms]
  show "t \<le> getTime nxt"
  proof (cases "matchInterval sched")
    case None
    with eq show ?thesis by simp
  next
    case (Some p)
    obtain ds u where p: "p = (ds, u)" by (cases p)
    have "0 \<le> parseInt ds * unitMs u"
      using parseInt_nonneg [OF matchIntervalD(2) [OF Some [unfolded p]]] unitMs_nonneg [of u]
      by simp
    with eq Some p show ?thesis by simp
  qed
  assume nz: "\<not> zeroInterval sched"
  show "t < getTime nxt"
  proof (cases "matchInterval sched")
    case None
    with eq show ?thesis by simp
  next
    case (Some p)
    obtain ds u where p: "p = (ds, u)" by (cases p)
    from nz Some p have "parseInt ds \<noteq> 0" by (simp add: zeroInterval_def)
    with parseInt_nonneg [OF matchIntervalD(2) [OF Some [unfolded p]]]
    have "0 < parseInt ds" by simp
    with unitMs_pos [OF matchIntervalD(3) [OF Some [unfolded p]]]
    have "0 < parseInt ds * unitMs u" by simp
    with eq Some p show ?thesis by simp
  qed
qed

lemma executeScheduledTask_entry:
  assumes "executeScheduledTask t0 t1 t2 r s = Inr s'"
  shows "\<exists>nxt. calculateNextRun t1 (schedule (heap s r)) = Inr nxt \<and>
     heap s' r = (heap s r)\<lparr>lastRun := Some (ISO t0), nextRun := nxt\<rparr>"
  using executeScheduledTask_heap [OF assms] by auto

text \<open>
  Claim C1, as the code has it. \<open>executeScheduledTask\<close> makes no due-check: whatever
  \<^verbatim>\<open>nextRun\<close> the entry holds (\<open>due\<close> below), it writes \<^verbatim>\<open>lastRun\<close>, recomputes \<^verbatim>\<open>nextRun\<close> from the clock,
  arms a timeout if the entry is enabled and has none recorded, and only then triggers
  the execution of the task. The recomputation of a firing precedes its execution, never
  the reverse.
\<close>

theorem executeScheduledTask_recomputes_before_execution:
  assumes "executeScheduledTask t0 t1 t2 r s = Inr s'"
  shows "\<exists>nxt armed.
     calculateNextRun t1 (schedule (heap s r)) = Inr nxt \<and>
     nextRun (heap s' r) = nxt \<and>
     armed = (if enabled (heap s r) \<and> map_of (activeIntervals s) (entry_id (heap s r)) = None
              then [TimerArmed (entry_id (heap s r)) (calculateDelay t2 nxt)] else []) \<and>
     events s' = events s @
       [LastRunUpdated (entry_id (heap s r)) (ISO t0), NextRunComputed (entry_id (heap s r)) nxt] @
       armed @ [TaskExecutionTriggered (taskId (heap s r))] \<and>
     \<not> before (TaskExecutionTriggered (taskId (heap s r))) (NextRunComputed (entry_id (heap s r)) nxt)
          ([LastRunUpdated (entry_id (heap s r)) (ISO t0), NextRunComputed (entry_id (heap s r)) nxt] @
           armed @ [TaskExecutionTriggered (taskId (heap s r))]) \<and>
     executeScheduledTask t0 t1 t2 r (s\<lparr>heap := (heap s)(r := (heap s r)\<lparr>nextRun := due\<rparr>)\<rparr>) = Inr s'"
proof -
  from executeScheduledTask_events [OF assms] obtain nxt where
    c: "calculateNextRun t1 (schedule (heap s r)) = Inr nxt" and
    e: "events s' = events s @
       [LastRunUpdated (entry_id (heap s r)) (ISO t0), NextRunComputed (entry_id (heap s r)) nxt] @
       (if enabled (heap s r) \<and> map_of (activeIntervals s) (entry_id (heap s r)) = None
        then [TimerArmed (entry_id (heap s r)) (calculateDelay t2 nxt)] else []) @
       [TaskExecutionTriggered (taskId (heap s r))]" by blast
  from executeScheduledTask_entry [OF assms] c
  have n: "nextRun (heap s' r) = nxt" by auto
  let ?s = "s\<lparr>heap := (heap s)(r := (heap s r)\<lparr>nextRun := due\<rparr>)\<rparr>"
  have c': "calculateNextRun t1 (schedule (heap ?s r)) = Inr nxt" using c by simp
  have d: "executeScheduledTask t0 t1 t2 r ?s = Inr s'"
    using assms
    unfolding executeScheduledTask_success [OF c', of t0 t2] executeScheduledTask_success [OF c, of t0 t2]
    by simp
  show ?thesis
    using c e n d by (auto simp: before_def)
qed

theorem executeScheduledTask_recomputes_before_execution_witness:
  "events (projr (executeScheduledTask (midnight + 300000) (midnight + 300000) (midnight + 300000) 0 oneScheduled)) =
     [TimerArmed ''schedule-scheduled-task'' 300000,
      LastRunUpdated ''schedule-scheduled-task'' (ISO 1765584300000),
      NextRunComputed ''schedule-scheduled-task'' (ISO 1765584600000),
      TaskExecutionTriggered ''scheduled-task'']"
  using executeScheduledTask_recomputes_before_execution [OF execute_oneScheduled]
  unfolding execute_oneScheduled by (simp add: oneScheduled_eq)

text \<open>
  As the claim states it the property fails: in the firing of the five-minute task at its
  due time \<^verbatim>\<open>nextRun\<close> is advanced by five minutes before the execution is triggered.
\<close>

theorem recompute_precedes_execution_counterexample:
  "nextRun (heap oneScheduled 0) = ISO (midnight + 300000) \<and>
   events (the (fireTimer (midnight + 300000) (midnight + 300000) (midnight + 300000) 0 oneScheduled)) =
     [TimerArmed ''schedule-scheduled-task'' 300000,
      LastRunUpdated ''schedule-scheduled-task'' (ISO (midnight + 300000)),
      NextRunComputed ''schedule-scheduled-task'' (ISO (midnight + 600000)),
      TaskExecutionTriggered ''scheduled-task''] \<and>
   before (NextRunComputed ''schedule-scheduled-task'' (ISO (midnight + 600000)))
          (TaskExecutionTriggered ''scheduled-task'')
          (events (the (fireTimer (midnight + 300000) (midnight + 300000) (midnight + 300000) 0 oneScheduled))) \<and>
   \<not> before (TaskExecutionTriggered ''scheduled-task'')
          (NextRunComputed ''schedule-scheduled-task'' (ISO (midnight + 600000)))
          (events (the (fireTimer (midnight + 300000) (midnight + 300000) (midnight + 300000) 0 oneScheduled)))"
  by (simp add: oneScheduled_eq fire_eval before_def)

text \<open>
  Claim C6, as the code has it. After the callback has run on an entry, \<^verbatim>\<open>lastRun\<close> is the
  clock reading of that run. With a clock that does not go back between the two readings
  \<^verbatim>\<open>nextRun\<close> is not before \<^verbatim>\<open>lastRun\<close>; it is strictly after \<^verbatim>\<open>lastRun\<close> for every schedule
  but an interval of zero.
\<close>

theorem executeScheduledTask_run_fields:
  assumes "executeScheduledTask t0 t1 t2 r s = Inr s'" and "t0 \<le> t1"
  shows "lastRun (heap s' r) = Some (ISO t0) \<and> t0 \<le> getTime (nextRun (heap s' r)) \<and>
         (\<not> zeroInterval (schedule (heap s r)) \<longrightarrow> t0 < getTime (nextRun (heap s' r)))"
proof -
  from executeScheduledTask_entry [OF assms(1)] obtain nxt where
    c: "calculateNextRun t1 (schedule (heap s r)) = Inr nxt" and
    h: "heap s' r = (heap s r)\<lparr>lastRun := Some (ISO t0), nextRun := nxt\<rparr>" by blast
  from calculateNextRun_Inr_later [OF c] assms(2) show ?thesis
    by (auto simp: h)
qed

theorem executeScheduledTask_run_fields_witness:
  "lastRun (heap (projr (executeScheduledTask (midnight + 300000) (midnight + 300000) (midnight + 300000) 0 oneScheduled)) 0)
     = Some (ISO 1765584300000) \<and>
   1765584300000 < getTime (nextRun (heap (projr (executeScheduledTask (midnight + 300000) (midnight + 300000) (midnight + 300000) 0 oneScheduled)) 0))"
proof -
  have nz: "\<not> zeroInterval (schedule (heap oneScheduled 0))"
    by (simp add: oneScheduled_eq zeroInterval_def matchInterval_def isDigit_def isUnit_def
        parseInt_def digitVal_def)
  have le: "midnight + 300000 \<le> midnight + 300000" by simp
  from executeScheduledTask_run_fields [OF execute_oneScheduled le] nz
  show ?thesis unfolding execute_oneScheduled by (simp add: midnight_def)
qed

text \<open>
  As the claim states it the property fails: for the schedule \<^verbatim>\<open>0s\<close> the firing leaves
  \<^verbatim>\<open>nextRun\<close> equal to \<^verbatim>\<open>lastRun\<close>.
\<close>

theorem zero_interval_run_fields_counterexample:
  "timers zeroScheduled 0 = Some (0, 0) \<and>
   lastRun (heap (the (fireTimer midnight midnight midnight 0 zeroScheduled)) 0) = Some (ISO midnight) \<and>
   nextRun (heap (the (fireTimer midnight midnight midnight 0 zeroScheduled)) 0) = ISO midnight"
  by (simp add: zeroScheduled_eq fire_eval)

lemma executeScheduledTask_schedule:
  assumes "executeScheduledTask t0 t1 t2 r s = Inr s'"
  shows "schedule (heap s' r) = schedule (heap s r)"
  using executeScheduledTask_entry [OF assms] by auto

lemma fireAll_schedule:
  "fireAll ts r s = Inr s' \<Longrightarrow> schedule (heap s' r) = schedule (heap s r)"
proof (induction ts arbitrary: s)
  case Nil
  then show ?case by simp
next
  case (Cons t ts)
  obtain t0 t1 t2 where t: "t = (t0, t1, t2)" by (cases t)
  from Cons.prems obtain s1 where e: "executeScheduledTask t0 t1 t2 r s = Inr s1"
    and f: "fireAll ts r s1 = Inr s'"
    by (auto simp: t split: sum.splits)
  from Cons.IH [OF f] executeScheduledTask_schedule [OF e] show ?case by simp
qed

lemma fireAll_snoc:
  "fireAll (ts @ [(t0, t1, t2)]) r s = Inr s' \<Longrightarrow>
     \<exists>s1. fireAll ts r s = Inr s1 \<and> executeScheduledTask t0 t1 t2 r s1 = Inr s'"
proof (induction ts arbitrary: s)
  case Nil
  then show ?case by (auto split: sum.splits)
next
  case (Cons t ts)
  obtain a b c where t: "t = (a, b, c)" by (cases t)
  from Cons.prems obtain s1 where e: "executeScheduledTask a b c r s = Inr s1"
    and f: "fireAll (ts @ [(t0, t1, t2)]) r s1 = Inr s'"
    by (auto simp: t split: sum.splits)
  from Cons.IH [OF f] e show ?case by (auto simp: t)
qed

lemma fireAll_last:
  assumes "matchInterval (schedule (heap s r)) = Some (ds, u)"
    and "fireAll (ts @ [(t0, t1, t2)]) r s = Inr s'"
  shows "lastRun (heap s' r) = Some (ISO t0)"
    and "nextRun (heap s' r) = ISO (t1 + parseInt ds * unitMs u)"
proof -
  from fireAll_snoc [OF assms(2)] obtain s1 where
    f: "fireAll ts r s = Inr s1" and e: "executeScheduledTask t0 t1 t2 r s1 = Inr s'" by blast
  from fireAll_schedule [OF f] assms(1)
  have m: "matchInterval (schedule (heap s1 r)) = Some (ds, u)" by simp
  from executeScheduledTask_entry [OF e] obtain nxt where
    c: "calculateNextRun t1 (schedule (heap s1 r)) = Inr nxt" and
    h: "heap s' r = (heap s1 r)\<lparr>lastRun := Some (ISO t0), nextRun := nxt\<rparr>" by blast
  from calculateNextRun_Inr_time [OF c] m
  have "getTime nxt = t1 + parseInt ds * unitMs u" by simp
  then have "nxt = ISO (t1 + parseInt ds * unitMs u)" by (cases nxt) simp
  with h show "lastRun (heap s' r) = Some (ISO t0)"
    and "nextRun (heap s' r) = ISO (t1 + parseInt ds * unitMs u)" by simp_all
qed

text \<open>
  Claim C5, as the code has it. The next run of an interval schedule is anchored to the
  wall clock at the recomputation, not to the run time: after any number of firings, the
  last of which wrote \<^verbatim>\<open>lastRun = t0\<close> and recomputed at the clock reading \<open>t1\<close>, \<^verbatim>\<open>nextRun\<close>
  is exactly \<open>t1\<close> plus the interval. It is the run time plus the interval when the clock
  has not moved between the two readings.
\<close>

theorem interval_nextRun_from_clock:
  assumes "matchInterval (schedule (heap s r)) = Some (ds, u)"
    and "fireAll (ts @ [(t0, t1, t2)]) r s = Inr s'"
  shows "lastRun (heap s' r) = Some (ISO t0) \<and>
         nextRun (heap s' r) = ISO (t1 + parseInt ds * unitMs u)"
  using fireAll_last [OF assms] by simp

theorem interval_nextRun_from_clock_witness:
  "nextRun (heap (projr (fireAll ([] @ [(midnight + 300000, midnight + 300001, midnight + 300001)]) 0 oneScheduled)) 0) =
     ISO (midnight + 300001 + parseInt ''5'' * unitMs CHR ''m'')"
proof -
  have f: "fireAll ([] @ [(midnight + 300000, midnight + 300001, midnight + 300001)]) 0 oneScheduled =
    Inr (oneScheduled\<lparr>heap := (heap oneScheduled)(0 := \<lparr>entry_id = ''schedule-scheduled-task'', taskId = ''scheduled-task'',
              schedule = ''5m'', nextRun = ISO 1765584600001, lastRun = Some (ISO 1765584300000), enabled = True\<rparr>),
          events := [TimerArmed ''schedule-scheduled-task'' 300000,
             LastRunUpdated ''schedule-scheduled-task'' (ISO 1765584300000),
             NextRunComputed ''schedule-scheduled-task'' (ISO 1765584600001),
             TaskExecutionTriggered ''scheduled-task'']\<rparr>)"
    by (simp add: execute_oneScheduled_late)
  from interval_nextRun_from_clock [OF match_oneScheduled f]
  show ?thesis unfolding f by simp
qed

text \<open>
  As the claim states it the property fails: when the clock moves on by a millisecond
  between the write of \<^verbatim>\<open>lastRun\<close> and the recomputation, \<^verbatim>\<open>nextRun\<close> is the run time plus
  the interval plus that millisecond.
\<close>

theorem interval_drift_counterexample:
  "lastRun (heap (the (fireTimer (midnight + 300000) (midnight + 300001) (midnight + 300001) 0 oneScheduled)) 0)
     = Some (ISO (midnight + 300000)) \<and>
   nextRun (heap (the (fireTimer (midnight + 300000) (midnight + 300001) (midnight + 300001) 0 oneScheduled)) 0)
     = ISO (midnight + 300000 + 300000 + 1) \<and>
   nextRun (heap (the (fireTimer (midnight + 300000) (midnight + 300001) (midnight + 300001) 0 oneScheduled)) 0)
     \<noteq> ISO (midnight + 300000 + 300000)"
  by (simp add: oneScheduled_eq fire_eval)

text \<open>
  Firings that happen exactly on time and take no time do not drift: after \<open>n + 1\<close> of
  them, started at \<open>t\<close>, the next run is \<open>t\<close> plus \<open>n + 1\<close> intervals.
\<close>

lemma onTime_Suc:
  "onTime t i (Suc n) = onTime t i n @ [(t + int n * i, t + int n * i, t + int n * i)]"
  by (simp add: onTime_def)

lemma fireAll_onTime:
  assumes "matchInterval (schedule (heap s r)) = Some (ds, u)"
    and "fireAll (onTime t (parseInt ds * unitMs u) (Suc n)) r s = Inr s'"
  shows "nextRun (heap s' r) = ISO (t + int (Suc n) * (parseInt ds * unitMs u))"
  using fireAll_last(2) [OF assms(1) assms(2) [unfolded onTime_Suc]]
  by (simp add: algebra_simps)

end
